theory Spec2Isabelle
  imports Complex_Main "HOL-Library.Log_Nat"
begin

section \<open>Python values used by \<open>optimize_logo.py\<close>\<close>

subsection \<open>Rendering integers and the size tuple\<close>

text \<open>
  The f-string \<^verbatim>\<open>f"Original size: {img.size}"\<close> renders the tuple \<open>(width, height)\<close>
  as \<^verbatim>\<open>(1024, 768)\<close>: each integer in decimal, separated by a comma and a space.
\<close>

fun str_nat :: "nat \<Rightarrow> string" where
  "str_nat n =
     (if n < 10 then [''0123456789'' ! n]
      else str_nat (n div 10) @ [''0123456789'' ! (n mod 10)])"

declare str_nat.simps [simp del]

definition str_int :: "int \<Rightarrow> string" where
  "str_int i = (if i < 0 then CHR ''-'' # str_nat (nat (- i)) else str_nat (nat i))"

definition str_size :: "int \<times> int \<Rightarrow> string" where
  "str_size sz = ''('' @ str_int (fst sz) @ '', '' @ str_int (snd sz) @ '')''"

subsection \<open>Double-precision floats\<close>

text \<open>
  A Python float is an IEEE 754 binary64 number. The script only produces finite values,
  so a float is modelled by a pair \<open>(m, s)\<close> of integers that stands for \<open>m * 2 ^ s\<close>.
  Every operation rounds its exact result to 53 significant bits, to nearest with ties to
  even, as the hardware (and CPython's correctly rounded \<open>int / int\<close>) does. The exponent
  is unbounded in the model: overflow and subnormal results, which need magnitudes above
  \<open>2 ^ 1023\<close> or below \<open>2 ^ - 1022\<close>, are out of reach of image dimensions.
\<close>

type_synonym double = "int \<times> int"

definition double_val :: "double \<Rightarrow> real" where
  "double_val x = of_int (fst x) * 2 powi (snd x)"

definition round_half_even :: "int \<Rightarrow> int \<Rightarrow> int" where
  \<comment> \<open>the integer nearest to \<open>n / d\<close> for \<open>d > 0\<close>, a tie going to the even neighbour\<close>
  "round_half_even n d =
     (let q = n div d; r = n mod d
      in if 2 * r < d then q
         else if d < 2 * r then q + 1
         else if even q then q else q + 1)"

definition nearest_double :: "int \<Rightarrow> int \<Rightarrow> double" where
  \<comment> \<open>the double nearest to \<open>n / d\<close> for \<open>n > 0\<close> and \<open>d > 0\<close>: the scale \<open>s\<close> is chosen so
      that \<open>2 ^ 52 \<le> n / (d * 2 ^ s) < 2 ^ 53\<close>, and the quotient is rounded at that scale\<close>
  "nearest_double n d =
     (let s0 = bitlen n - bitlen d - 53;
          s = (if n * 2 ^ nat (- s0) < d * 2 ^ nat s0 * 2 ^ 53 then s0 else s0 + 1)
      in (round_half_even (n * 2 ^ nat (- s)) (d * 2 ^ nat s), s))"

definition to_double :: "int \<Rightarrow> int \<Rightarrow> double" where
  \<comment> \<open>rounding is symmetric in the sign; zero is exact\<close>
  "to_double n d =
     (if n = 0 then (0, 0)
      else if 0 < n then nearest_double n d
      else (let x = nearest_double (- n) d in (- fst x, snd x)))"

datatype exn = ImportError string | OtherError string

definition int_truediv :: "int \<Rightarrow> int \<Rightarrow> exn + double" where
  \<comment> \<open>\<^verbatim>\<open>a / b\<close> on two ints\<close>
  "int_truediv a b =
     (if b = 0 then Inl (OtherError ''division by zero'')
      else if 0 < b then Inr (to_double a b)
      else Inr (to_double (- a) (- b)))"

definition float_of_int :: "int \<Rightarrow> double" where
  "float_of_int i = to_double i 1"

definition float_mul :: "double \<Rightarrow> double \<Rightarrow> double" where
  \<comment> \<open>the exact product is \<open>(m1 * m2) * 2 ^ (s1 + s2)\<close>; rounding acts on the integer part\<close>
  "float_mul x y =
     (let p = to_double (fst x * fst y) 1 in (fst p, snd p + snd x + snd y))"

definition int_mul_float :: "int \<Rightarrow> double \<Rightarrow> double" where
  \<comment> \<open>\<^verbatim>\<open>i * x\<close> with an int on the left: the int is converted to a float first\<close>
  "int_mul_float i x = float_mul (float_of_int i) x"

definition int_of_float :: "double \<Rightarrow> int" where
  \<comment> \<open>\<^verbatim>\<open>int(x)\<close> truncates towards zero\<close>
  "int_of_float x =
     (if 0 \<le> fst x then (fst x * 2 ^ nat (snd x)) div 2 ^ nat (- snd x)
      else - ((- fst x * 2 ^ nat (snd x)) div 2 ^ nat (- snd x)))"

section \<open>The environment: file system and imaging library\<close>

text \<open>
  The image is the decoded bitmap as far as the script looks at it: its size. A file is
  either content that decodes to an image, or content on which decoding raises.
\<close>

record image =
  width :: int
  height :: int

definition img_size :: "image \<Rightarrow> int \<times> int" where
  "img_size img = (width img, height img)"

datatype file_data = Encoded image | Undecodable exn

datatype resampling = LANCZOS

datatype call =
    Exists string
  | Open string
  | Resize image "int \<times> int" resampling
  | Save image string bool int

text \<open>
  The state the script acts on: the file system (a map from paths to files), the lines
  printed so far, and the calls made to the operating system and to the library, in order.
\<close>

record state =
  disk :: "string \<Rightarrow> file_data option"
  console :: "string list"
  calls :: "call list"

text \<open>
  What the script cannot decide lies in the environment: whether the import succeeds, and
  which library calls raise (a permission error, a read error while the pixels are loaded,
  a full disk, a size the library rejects). A failed save leaves the path with whatever
  the environment says. Whether a line can be written to the console is a parameter of
  its own, of type \<open>stdout\<close>: what writing that line raises, if anything (a closed or
  broken standard output, a character the console encoding does not have).
\<close>

record env =
  pillow_installed :: bool
  open_fault :: "image \<Rightarrow> exn option"
  resize_fault :: "image \<Rightarrow> int \<times> int \<Rightarrow> exn option"
  save_fault :: "image \<Rightarrow> (exn \<times> file_data option) option"

type_synonym stdout = "string \<Rightarrow> exn option"

definition print :: "stdout \<Rightarrow> string \<Rightarrow> state \<Rightarrow> exn option \<times> state" where
  \<comment> \<open>\<^verbatim>\<open>print(line)\<close>: the line is added to the console, unless writing it raises\<close>
  "print out line s =
     (case out line of
        Some x \<Rightarrow> (Some x, s)
      | None \<Rightarrow> (None, s\<lparr>console := console s @ [line]\<rparr>))"

definition writable :: stdout where
  \<comment> \<open>a console on which every write succeeds\<close>
  "writable = (\<lambda>_. None)"

definition closed_stdout :: stdout where
  \<comment> \<open>a console on which every write raises\<close>
  "closed_stdout = (\<lambda>_. Some (OtherError ''I/O operation on closed file''))"

definition record_call :: "call \<Rightarrow> state \<Rightarrow> state" where
  "record_call c s = s\<lparr>calls := calls s @ [c]\<rparr>"

definition os_path_exists :: "string \<Rightarrow> state \<Rightarrow> bool \<times> state" where
  "os_path_exists p s = (disk s p \<noteq> None, record_call (Exists p) s)"

definition Image_open :: "env \<Rightarrow> string \<Rightarrow> state \<Rightarrow> (exn + image) \<times> state" where
  "Image_open e p s =
     (let s' = record_call (Open p) s
      in case disk s p of
           None \<Rightarrow> (Inl (OtherError ''No such file or directory''), s')
         | Some (Undecodable x) \<Rightarrow> (Inl x, s')
         | Some (Encoded img) \<Rightarrow>
             (case open_fault e img of
                Some x \<Rightarrow> (Inl x, s')
              | None \<Rightarrow> (Inr img, s')))"

definition Image_resize ::
  "env \<Rightarrow> image \<Rightarrow> int \<times> int \<Rightarrow> resampling \<Rightarrow> state \<Rightarrow> (exn + image) \<times> state" where
  \<comment> \<open>a resize that succeeds returns an image of exactly the requested size\<close>
  "Image_resize e img sz flt s =
     (let s' = record_call (Resize img sz flt) s
      in case resize_fault e img sz of
           Some x \<Rightarrow> (Inl x, s')
         | None \<Rightarrow> (Inr \<lparr>width = fst sz, height = snd sz\<rparr>, s'))"

definition Image_save ::
  "env \<Rightarrow> image \<Rightarrow> string \<Rightarrow> bool \<Rightarrow> int \<Rightarrow> state \<Rightarrow> exn option \<times> state" where
  \<comment> \<open>a save that succeeds replaces the file at the path by the encoded image\<close>
  "Image_save e img p optimize quality s =
     (let s' = record_call (Save img p optimize quality) s
      in case save_fault e img of
           Some (x, rest) \<Rightarrow> (Some x, s'\<lparr>disk := (disk s')(p := rest)\<rparr>)
         | None \<Rightarrow> (None, s'\<lparr>disk := (disk s')(p \<mapsto> Encoded img)\<rparr>))"

section \<open>The script\<close>

definition backslash :: char where
  "backslash = CHR 0x5C"

definition path :: string where
  "path = ''C:'' @ backslash # ''Users'' @ backslash # ''LAPTOP SHOP'' @ backslash #
     ''.gemini'' @ backslash # ''antigravity'' @ backslash # ''scratch'' @ backslash #
     ''EnchantedSecrets'' @ backslash # ''client'' @ backslash # ''public'' @ backslash #
     ''logo.png''"

definition new_height :: "image \<Rightarrow> exn + int" where
  \<comment> \<open>\<^verbatim>\<open>ratio = 512 / img.width; new_height = int(img.height * ratio)\<close>\<close>
  "new_height img =
     (case int_truediv 512 (width img) of
        Inl x \<Rightarrow> Inl x
      | Inr ratio \<Rightarrow> Inr (int_of_float (int_mul_float (height img) ratio)))"

definition resize_branch ::
  "stdout \<Rightarrow> env \<Rightarrow> image \<Rightarrow> state \<Rightarrow> exn option \<times> state" where
  "resize_branch out e img s =
     (case new_height img of
        Inl x \<Rightarrow> (Some x, s)
      | Inr h \<Rightarrow>
          (case Image_resize e img (512, h) LANCZOS s of
             (Inl x, s1) \<Rightarrow> (Some x, s1)
           | (Inr img', s1) \<Rightarrow>
               (case Image_save e img' path True 85 s1 of
                  (Some x, s2) \<Rightarrow> (Some x, s2)
                | (None, s2) \<Rightarrow>
                    print out (''Resized to: '' @ str_size (img_size img')) s2)))"

definition small_branch ::
  "stdout \<Rightarrow> env \<Rightarrow> image \<Rightarrow> state \<Rightarrow> exn option \<times> state" where
  "small_branch out e img s =
     (case print out ''Image small enough, skipping resize.'' s of
        (Some x, s1) \<Rightarrow> (Some x, s1)
      | (None, s1) \<Rightarrow>
          (case Image_save e img path True 85 s1 of
             (Some x, s2) \<Rightarrow> (Some x, s2)
           | (None, s2) \<Rightarrow> print out ''Optimized existing image.'' s2))"

definition try_body_on :: "stdout \<Rightarrow> env \<Rightarrow> state \<Rightarrow> exn option \<times> state" where
  \<comment> \<open>the body of the \<^verbatim>\<open>try\<close>: the exception that leaves it, if any, and the state then\<close>
  "try_body_on out e s =
     (if \<not> pillow_installed e then (Some (ImportError ''No module named PIL''), s)
      else case os_path_exists path s of
        (False, s1) \<Rightarrow> (None, s1)
      | (True, s1) \<Rightarrow>
          (case Image_open e path s1 of
             (Inl x, s2) \<Rightarrow> (Some x, s2)
           | (Inr img, s2) \<Rightarrow>
               (case print out (''Original size: '' @ str_size (img_size img)) s2 of
                  (Some x, s3) \<Rightarrow> (Some x, s3)
                | (None, s3) \<Rightarrow>
                    if 512 < width img then resize_branch out e img s3
                    else small_branch out e img s3)))"

definition optimize_logo_on :: "stdout \<Rightarrow> env \<Rightarrow> state \<Rightarrow> exn option \<times> state" where
  \<comment> \<open>the whole script: the exception that escapes it (none: a normal exit, otherwise a
      traceback and exit status 1) and the final state; \<^verbatim>\<open>except ImportError\<close> is tried
      before \<^verbatim>\<open>except Exception\<close>, and an exception raised by a handler's own
      \<^verbatim>\<open>print\<close> is caught by nothing\<close>
  "optimize_logo_on out e s =
     (case try_body_on out e s of
        (None, s') \<Rightarrow> (None, s')
      | (Some (ImportError m), s') \<Rightarrow> print out ''Pillow not installed'' s'
      | (Some (OtherError m), s') \<Rightarrow> print out (''Error: '' @ m) s')"

text \<open>
  The script on a console that can be written: the setting of every statement below
  that is not about the console itself.
\<close>

definition try_body :: "env \<Rightarrow> state \<Rightarrow> exn option \<times> state" where
  "try_body e s = try_body_on writable e s"

definition optimize_logo :: "env \<Rightarrow> state \<Rightarrow> exn option \<times> state" where
  "optimize_logo e s = optimize_logo_on writable e s"

section \<open>Environments and states used as instances\<close>

text \<open>
  The environment in which the library is installed and no call raises, some in which
  one kind of call raises, and the state before a run: nothing printed, no call made, and
  the logo path holding the given file (or nothing).
\<close>

definition quiet_env :: env where
  "quiet_env =
     \<lparr>pillow_installed = True,
      open_fault = (\<lambda>_. None),
      resize_fault = (\<lambda>_ _. None),
      save_fault = (\<lambda>_. None)\<rparr>"

definition strict_env :: env where
  \<comment> \<open>as \<open>quiet_env\<close>, with a resize that rejects an empty size\<close>
  "strict_env =
     quiet_env\<lparr>resize_fault :=
       (\<lambda>_ sz. if fst sz < 1 \<or> snd sz < 1
                then Some (OtherError ''height and width must be > 0'') else None)\<rparr>"

definition truncated_env :: env where
  \<comment> \<open>the file opens (its header is read) and the pixel data, which the library
      decodes only when the resize loads it, is cut short\<close>
  "truncated_env =
     quiet_env\<lparr>resize_fault := (\<lambda>_ _. Some (OtherError ''image file is truncated''))\<rparr>"

definition full_disk_env :: env where
  \<comment> \<open>every save fails and leaves no file behind\<close>
  "full_disk_env =
     quiet_env\<lparr>save_fault := (\<lambda>_. Some (OtherError ''No space left on device'', None))\<rparr>"

definition start_state :: "file_data option \<Rightarrow> state" where
  "start_state f = \<lparr>disk = (\<lambda>_. None)(path := f), console = [], calls = []\<rparr>"

section \<open>Accuracy of the float operations\<close>

text \<open>
  Rounding to nearest moves a value by at most half a unit in the last place, that is by
  a relative error of at most \<open>2 ^ - 53\<close>.
\<close>


lemma round_half_even_err:
  assumes "0 < d"
  shows "\<bar>real_of_int (round_half_even n d) - real_of_int n / real_of_int d\<bar> \<le> 1 / 2"
proof -
  define q where "q = n div d"
  define r where "r = n mod d"
  have n: "n = q * d + r" by (simp add: q_def r_def)
  have r: "0 \<le> r" "r < d" using assms by (simp_all add: r_def)
  have x: "real_of_int n / real_of_int d = real_of_int q + real_of_int r / real_of_int d"
    using assms by (simp add: n field_simps)
  have lo: "2 * r < d \<Longrightarrow> real_of_int r / real_of_int d \<le> 1 / 2"
    using assms by (simp add: field_simps)
  have hi: "d \<le> 2 * r \<Longrightarrow> 1 / 2 \<le> real_of_int r / real_of_int d"
    using assms by (simp add: field_simps)
  have eq: "d = 2 * r \<Longrightarrow> real_of_int r / real_of_int d = 1 / 2"
    using assms by (simp add: field_simps)
  have r0: "0 \<le> real_of_int r / real_of_int d" using r assms by simp
  have r1: "real_of_int r / real_of_int d \<le> 1" using r assms by simp
  show ?thesis
    unfolding round_half_even_def Let_def q_def [symmetric] r_def [symmetric] x
    using lo hi eq r0 r1 by (auto simp: abs_if not_less)
qed

lemma round_half_even_nonneg: "0 \<le> n \<Longrightarrow> 0 < d \<Longrightarrow> 0 \<le> round_half_even n d"
  by (simp add: round_half_even_def Let_def pos_imp_zdiv_nonneg_iff)

lemma pow2_nat_split: "(2::real) ^ nat (- s) / 2 ^ nat s = 2 powi (- s)"
proof (cases "0 \<le> s")
  case True
  then have "(2::real) ^ nat s = 2 powi s" by (simp add: power_int_def)
  with True show ?thesis by (simp add: power_int_minus inverse_eq_divide)
next
  case False
  then have "(2::real) ^ nat (- s) = 2 powi (- s)" by (simp add: power_int_def)
  with False show ?thesis by simp
qed

lemma scaled_quotient:
  "real_of_int (n * 2 ^ nat (- s)) / real_of_int (d * 2 ^ nat s) =
   real_of_int n / real_of_int d * 2 powi (- s)"
proof -
  have "real_of_int (n * 2 ^ nat (- s)) / real_of_int (d * 2 ^ nat s) =
        real_of_int n / real_of_int d * ((2::real) ^ nat (- s) / 2 ^ nat s)"
    by simp
  then show ?thesis by (simp only: pow2_nat_split)
qed

lemma bitlen_powi:
  assumes "0 < n"
  shows "2 powi (bitlen n - 1) \<le> real_of_int n" and "real_of_int n < 2 powi (bitlen n)"
proof -
  from assms have b: "1 \<le> bitlen n" by (simp add: bitlen_alt_def)
  from bitlen_bounds [OF assms]
  have lo: "2 ^ nat (bitlen n - 1) \<le> n" and hi: "n < 2 ^ nat (bitlen n)" by simp_all
  from lo have "real_of_int (2 ^ nat (bitlen n - 1)) \<le> real_of_int n"
    by (simp only: of_int_le_iff)
  with b show "2 powi (bitlen n - 1) \<le> real_of_int n" by (simp add: power_int_def)
  from hi have "real_of_int n < real_of_int (2 ^ nat (bitlen n))"
    by (simp only: of_int_less_iff)
  with b show "real_of_int n < 2 powi (bitlen n)" by (simp add: power_int_def)
qed

lemma nearest_double_scale:
  assumes n: "0 < n" and d: "0 < d"
  shows "2 ^ 52 \<le> real_of_int n / real_of_int d * 2 powi (- snd (nearest_double n d))"
proof -
  define X where "X = real_of_int n / real_of_int d"
  define s0 where "s0 = bitlen n - bitlen d - 53"
  have Xpos: "0 < X" using n d by (simp add: X_def)
  have "2 powi (bitlen n - 1) / 2 powi (bitlen d) \<le> real_of_int n / 2 powi (bitlen d)"
    using bitlen_powi(1) [OF n] by (simp add: divide_right_mono)
  also have "\<dots> \<le> X"
    unfolding X_def using bitlen_powi(2) [OF d] n d by (simp add: frac_le)
  finally have "2 powi (bitlen n - 1) / 2 powi (bitlen d) \<le> X" .
  moreover have "(2::real) powi (bitlen n - 1) / 2 powi (bitlen d) = 2 powi (s0 + 52)"
    by (simp add: s0_def power_int_diff)
  ultimately have lo: "2 powi (s0 + 52) \<le> X" by simp
  have test: "n * 2 ^ nat (- s0) < d * 2 ^ nat s0 * 2 ^ 53 \<longleftrightarrow> X * 2 powi (- s0) < 2 ^ 53"
  proof -
    have pos: "0 < real_of_int (d * 2 ^ nat s0)" using d by simp
    have "n * 2 ^ nat (- s0) < d * 2 ^ nat s0 * 2 ^ 53 \<longleftrightarrow>
          real_of_int (n * 2 ^ nat (- s0)) < real_of_int (d * 2 ^ nat s0 * 2 ^ 53)"
      by (simp only: of_int_less_iff)
    also have "\<dots> \<longleftrightarrow>
          real_of_int (n * 2 ^ nat (- s0)) / real_of_int (d * 2 ^ nat s0) < 2 ^ 53"
      using pos by (simp add: pos_divide_less_eq mult.commute)
    finally show ?thesis by (simp only: scaled_quotient X_def)
  qed
  show ?thesis
  proof (cases "n * 2 ^ nat (- s0) < d * 2 ^ nat s0 * 2 ^ 53")
    case True
    then have s: "snd (nearest_double n d) = s0"
      by (simp add: nearest_double_def Let_def s0_def)
    have "(2::real) ^ 52 = 2 powi (s0 + 52) * 2 powi (- s0)"
      by (simp add: power_int_add [symmetric])
    also have "\<dots> \<le> X * 2 powi (- s0)"
      using lo by (simp add: mult_right_mono)
    finally show ?thesis by (simp add: s X_def)
  next
    case False
    then have s: "snd (nearest_double n d) = s0 + 1"
      by (simp add: nearest_double_def Let_def s0_def)
    from False test have "2 ^ 53 \<le> X * 2 powi (- s0)" by simp
    then have "2 ^ 52 \<le> X * 2 powi (- s0) / 2" by simp
    moreover have "(2::real) powi (- (s0 + 1)) = 2 powi (- s0) / 2"
      using power_int_diff [of "2::real" "- s0" 1] by simp
    then have "X * 2 powi (- (s0 + 1)) = X * 2 powi (- s0) / 2"
      by (simp only: times_divide_eq_right)
    ultimately have "2 ^ 52 \<le> X * 2 powi (- (s0 + 1))" by (simp only:)
    then show ?thesis by (simp add: s X_def)
  qed
qed

lemma nearest_double_err:
  assumes n: "0 < n" and d: "0 < d"
  shows "\<bar>double_val (nearest_double n d) - real_of_int n / real_of_int d\<bar>
         \<le> real_of_int n / real_of_int d / 2 ^ 53"
proof -
  define X where "X = real_of_int n / real_of_int d"
  define s where "s = snd (nearest_double n d)"
  define m where "m = fst (nearest_double n d)"
  have m: "m = round_half_even (n * 2 ^ nat (- s)) (d * 2 ^ nat s)"
    by (simp add: m_def s_def nearest_double_def Let_def)
  have p: "(0::real) < 2 powi s" by simp
  have "0 < d * 2 ^ nat s" using d by simp
  from round_half_even_err [OF this, of "n * 2 ^ nat (- s)"]
  have e: "\<bar>real_of_int m - X * 2 powi (- s)\<bar> \<le> 1 / 2"
    by (simp only: m scaled_quotient X_def)
  have "double_val (nearest_double n d) - X = (real_of_int m - X * 2 powi (- s)) * 2 powi s"
    by (simp add: double_val_def m_def s_def algebra_simps power_int_minus)
  then have "\<bar>double_val (nearest_double n d) - X\<bar> =
             \<bar>real_of_int m - X * 2 powi (- s)\<bar> * 2 powi s"
    by (simp add: abs_mult)
  also have "\<dots> \<le> 1 / 2 * 2 powi s"
    using e by (simp add: mult_right_mono)
  also have "\<dots> \<le> X / 2 ^ 53"
  proof -
    from nearest_double_scale [OF n d]
    have "2 ^ 52 \<le> X * 2 powi (- s)" by (simp add: X_def s_def)
    then have "2 ^ 52 * 2 powi s \<le> X * 2 powi (- s) * 2 powi s"
      by (simp add: mult_right_mono)
    also have "X * 2 powi (- s) * 2 powi s = X"
      by (simp add: power_int_minus)
    finally show ?thesis by simp
  qed
  finally show ?thesis by (simp add: X_def)
qed


lemma double_val_zero [simp]: "double_val (0, s) = 0"
  by (simp add: double_val_def)

lemma double_val_neg: "double_val (- m, s) = - double_val (m, s)"
  by (simp add: double_val_def)

lemma to_double_err:
  assumes d: "0 < d"
  shows "\<bar>double_val (to_double n d) - real_of_int n / real_of_int d\<bar>
         \<le> \<bar>real_of_int n / real_of_int d\<bar> / 2 ^ 53"
proof -
  consider "n = 0" | "0 < n" | "n < 0" by linarith
  then show ?thesis
  proof cases
    case 1
    then show ?thesis by (simp add: to_double_def)
  next
    case 2
    then have a: "\<bar>real_of_int n / real_of_int d\<bar> = real_of_int n / real_of_int d"
      using d by simp
    have v: "to_double n d = nearest_double n d"
      using 2 by (simp add: to_double_def)
    show ?thesis
      unfolding a v by (rule nearest_double_err [OF 2 d])
  next
    case 3
    then have pos: "0 < - n" by simp
    have v: "double_val (to_double n d) = - double_val (nearest_double (- n) d)"
      using 3 double_val_neg [of "fst (nearest_double (- n) d)" "snd (nearest_double (- n) d)"]
      by (simp add: to_double_def Let_def)
    have a: "\<bar>real_of_int n / real_of_int d\<bar> = real_of_int (- n) / real_of_int d"
      using 3 d by (simp add: abs_if field_simps)
    have "\<bar>double_val (to_double n d) - real_of_int n / real_of_int d\<bar> =
          \<bar>double_val (nearest_double (- n) d) - real_of_int (- n) / real_of_int d\<bar>"
      unfolding v by (simp add: abs_if)
    also have "\<dots> \<le> real_of_int (- n) / real_of_int d / 2 ^ 53"
      by (rule nearest_double_err [OF pos d])
    finally show ?thesis by (simp only: a)
  qed
qed

lemma nearest_double_nonneg: "0 < n \<Longrightarrow> 0 < d \<Longrightarrow> 0 \<le> fst (nearest_double n d)"
  by (simp add: nearest_double_def Let_def round_half_even_nonneg)

lemma to_double_nonneg: "0 \<le> n \<Longrightarrow> 0 < d \<Longrightarrow> 0 \<le> fst (to_double n d)"
  by (simp add: to_double_def nearest_double_nonneg)

lemma float_mul_nonneg: "0 \<le> fst x \<Longrightarrow> 0 \<le> fst y \<Longrightarrow> 0 \<le> fst (float_mul x y)"
  by (simp add: float_mul_def Let_def to_double_nonneg)

lemma float_mul_err:
  "\<bar>double_val (float_mul x y) - double_val x * double_val y\<bar>
   \<le> \<bar>double_val x * double_val y\<bar> / 2 ^ 53"
proof -
  define N where "N = fst x * fst y"
  define t where "t = snd x + snd y"
  define P where "P = double_val (to_double N 1)"
  have tp: "(0::real) < 2 powi t" by simp
  have v: "double_val (float_mul x y) = P * 2 powi t"
    by (simp add: float_mul_def Let_def double_val_def P_def N_def t_def power_int_add
        add.assoc)
  have xy: "double_val x * double_val y = real_of_int N * 2 powi t"
    by (simp add: double_val_def N_def t_def power_int_add)
  from to_double_err [of 1 N] have e: "\<bar>P - real_of_int N\<bar> \<le> \<bar>real_of_int N\<bar> / 2 ^ 53"
    by (simp add: P_def)
  have "\<bar>double_val (float_mul x y) - double_val x * double_val y\<bar> =
        \<bar>P - real_of_int N\<bar> * 2 powi t"
    unfolding v xy by (simp add: abs_mult left_diff_distrib [symmetric])
  also have "\<dots> \<le> \<bar>real_of_int N\<bar> / 2 ^ 53 * 2 powi t"
    using e tp by (simp only: mult_right_mono less_imp_le)
  also have "\<dots> = \<bar>double_val x * double_val y\<bar> / 2 ^ 53"
    unfolding xy by (simp add: abs_mult)
  finally show ?thesis .
qed

lemma int_of_float_floor:
  assumes "0 \<le> fst x"
  shows "int_of_float x = \<lfloor>double_val x\<rfloor>"
proof -
  have "double_val x = real_of_int (fst x) * ((2::real) ^ nat (snd x) / 2 ^ nat (- snd x))"
    using pow2_nat_split [of "- snd x"] by (simp add: double_val_def)
  also have "\<dots> = real_of_int (fst x * 2 ^ nat (snd x)) / real_of_int (2 ^ nat (- snd x))"
    by simp
  finally have "\<lfloor>double_val x\<rfloor> = (fst x * 2 ^ nat (snd x)) div 2 ^ nat (- snd x)"
    by (simp only: floor_divide_of_int_eq)
  with assms show ?thesis by (simp add: int_of_float_def)
qed


lemma rel_err_bounds:
  fixes v x :: real
  assumes "\<bar>v - x\<bar> \<le> \<bar>x\<bar> / 2 ^ 53" and "0 \<le> x"
  shows "x * (1 - 1 / 2 ^ 53) \<le> v" and "v \<le> x * (1 + 1 / 2 ^ 53)"
proof -
  from assms have "\<bar>v - x\<bar> \<le> x / 2 ^ 53" by simp
  then have e: "v - x \<le> x / 2 ^ 53" "x - v \<le> x / 2 ^ 53" by linarith+
  have "x * (1 - 1 / 2 ^ 53) = x - x / 2 ^ 53" by (simp add: right_diff_distrib)
  with e(2) show "x * (1 - 1 / 2 ^ 53) \<le> v" by linarith
  have "x * (1 + 1 / 2 ^ 53) = x + x / 2 ^ 53" by (simp add: distrib_left)
  with e(1) show "v \<le> x * (1 + 1 / 2 ^ 53)" by linarith
qed

lemma three_roundings_upper: "(1 + 1 / 2 ^ 53) * (1 + 1 / 2 ^ 53) * (1 + 1 / 2 ^ 53) \<le> (1 + 1 / 2 ^ 51 :: real)"
  by simp

lemma three_roundings_lower: "(1 - 1 / 2 ^ 51 :: real) \<le> (1 - 1 / 2 ^ 53) * (1 - 1 / 2 ^ 53) * (1 - 1 / 2 ^ 53)"
  by simp

lemma new_height_val:
  assumes w: "512 < width img" and h: "0 \<le> height img"
  shows "\<exists>p. new_height img = Inr \<lfloor>p\<rfloor> \<and>
           real_of_int (height img) * 512 / real_of_int (width img) * (1 - 1 / 2 ^ 51) \<le> p \<and>
           p \<le> real_of_int (height img) * 512 / real_of_int (width img) * (1 + 1 / 2 ^ 51)"
proof -
  define ratio where "ratio = to_double 512 (width img)"
  define f where "f = float_of_int (height img)"
  define P where "P = float_mul f ratio"
  define R where "R = 512 / real_of_int (width img)"
  define H where "H = real_of_int (height img)"
  define a where "a = (1 - 1 / 2 ^ 53 :: real)"
  define b where "b = (1 + 1 / 2 ^ 53 :: real)"
  have a0: "0 \<le> a" and b0: "0 \<le> b" by (simp_all add: a_def b_def)
  have wpos: "0 < width img" using w by simp
  have R0: "0 \<le> R" using wpos by (simp add: R_def)
  have H0: "0 \<le> H" using h by (simp add: H_def)
  have nh: "new_height img = Inr (int_of_float P)"
    using w by (simp add: new_height_def int_truediv_def int_mul_float_def P_def f_def ratio_def)
  have "0 \<le> fst ratio" using wpos by (simp add: ratio_def to_double_nonneg)
  moreover have "0 \<le> fst f" using h by (simp add: f_def float_of_int_def to_double_nonneg)
  ultimately have "0 \<le> fst P" by (simp add: P_def float_mul_nonneg)
  then have fl: "int_of_float P = \<lfloor>double_val P\<rfloor>" by (rule int_of_float_floor)
  have "\<bar>double_val ratio - R\<bar> \<le> \<bar>R\<bar> / 2 ^ 53"
    using to_double_err [OF wpos, of 512] by (simp add: ratio_def R_def)
  from rel_err_bounds [OF this R0]
  have r: "R * a \<le> double_val ratio" "double_val ratio \<le> R * b"
    by (simp_all add: a_def b_def)
  have "\<bar>double_val f - H\<bar> \<le> \<bar>H\<bar> / 2 ^ 53"
    using to_double_err [of 1 "height img"] by (simp add: f_def float_of_int_def H_def)
  from rel_err_bounds [OF this H0]
  have fb: "H * a \<le> double_val f" "double_val f \<le> H * b"
    by (simp_all add: a_def b_def)
  have r0: "0 \<le> double_val ratio" using r(1) R0 a0 by (meson mult_nonneg_nonneg order_trans)
  have f0: "0 \<le> double_val f" using fb(1) H0 a0 by (meson mult_nonneg_nonneg order_trans)
  have fr0: "0 \<le> double_val f * double_val ratio" using r0 f0 by simp
  from rel_err_bounds [OF float_mul_err [of f ratio] fr0]
  have pb: "double_val f * double_val ratio * a \<le> double_val P"
           "double_val P \<le> double_val f * double_val ratio * b"
    by (simp_all add: a_def b_def P_def)
  have "(H * a) * (R * a) \<le> double_val f * double_val ratio"
    by (rule mult_mono [OF fb(1) r(1) f0]) (simp add: R0 a0)
  then have "(H * a) * (R * a) * a \<le> double_val f * double_val ratio * a"
    using a0 by (rule mult_right_mono)
  with pb(1) have lo: "H * R * (a * a * a) \<le> double_val P"
    by (simp add: mult_ac)
  have "double_val f * double_val ratio \<le> (H * b) * (R * b)"
    by (rule mult_mono [OF fb(2) r(2) _ r0]) (simp add: H0 b0)
  then have "double_val f * double_val ratio * b \<le> (H * b) * (R * b) * b"
    using b0 by (rule mult_right_mono)
  with pb(2) have hi: "double_val P \<le> H * R * (b * b * b)"
    by (simp add: mult_ac)
  have HR0: "0 \<le> H * R" using H0 R0 by simp
  have "H * R * (1 - 1 / 2 ^ 51) \<le> H * R * (a * a * a)"
    using three_roundings_lower HR0 unfolding a_def by (rule mult_left_mono)
  with lo have lo': "H * R * (1 - 1 / 2 ^ 51) \<le> double_val P" by simp
  have "H * R * (b * b * b) \<le> H * R * (1 + 1 / 2 ^ 51)"
    using three_roundings_upper HR0 unfolding b_def by (rule mult_left_mono)
  with hi have hi': "double_val P \<le> H * R * (1 + 1 / 2 ^ 51)" by simp
  have x: "real_of_int (height img) * 512 / real_of_int (width img) = H * R"
    by (simp add: H_def R_def)
  show ?thesis
    unfolding x using nh fl lo' hi' by (intro exI [of _ "double_val P"]) simp
qed


lemma new_height_le_height:
  assumes w: "512 < width img" and h: "0 \<le> height img"
  shows "\<exists>k. new_height img = Inr k \<and> 0 \<le> k \<and> k \<le> height img"
proof -
  define H where "H = real_of_int (height img)"
  define W where "W = real_of_int (width img)"
  from new_height_val [OF w h] obtain p where
    nh: "new_height img = Inr \<lfloor>p\<rfloor>" and
    lo: "H * 512 / W * (1 - 1 / 2 ^ 51) \<le> p" and
    hi: "p \<le> H * 512 / W * (1 + 1 / 2 ^ 51)"
    unfolding H_def W_def by blast
  have H0: "0 \<le> H" using h by (simp add: H_def)
  have W513: "513 \<le> W" using w by (simp add: W_def)
  then have Wpos: "0 < W" by simp
  have x0: "0 \<le> H * 512 / W" using H0 Wpos by simp
  then have "0 \<le> H * 512 / W * (1 - 1 / 2 ^ 51)" by (rule mult_nonneg_nonneg) simp
  with lo have "0 \<le> p" by simp
  then have k0: "0 \<le> \<lfloor>p\<rfloor>" by simp
  have "H * 512 \<le> H * (512 / 513) * W"
  proof -
    have "H * 512 = H * (512 / 513) * 513" by simp
    also have "\<dots> \<le> H * (512 / 513) * W"
      using W513 H0 by (intro mult_left_mono) simp_all
    finally show ?thesis .
  qed
  then have "H * 512 / W \<le> H * (512 / 513)"
    using Wpos by (simp add: pos_divide_le_eq)
  then have "H * 512 / W * (1 + 1 / 2 ^ 51) \<le> H * (512 / 513) * (1 + 1 / 2 ^ 51)"
    by (rule mult_right_mono) simp
  also have "\<dots> = H * (512 / 513 * (1 + 1 / 2 ^ 51))" by simp
  also have "\<dots> \<le> H * 1"
    using H0 by (intro mult_left_mono) simp_all
  finally have "p \<le> H" using hi by simp
  then have "\<lfloor>p\<rfloor> \<le> \<lfloor>H\<rfloor>" by (rule floor_mono)
  then have "\<lfloor>p\<rfloor> \<le> height img" by (simp add: H_def)
  with nh k0 show ?thesis by blast
qed

lemma new_height_floor:
  assumes w: "512 < width img" and h: "0 \<le> height img" and b: "height img < 2 ^ 42"
  shows "\<exists>k. new_height img = Inr k \<and>
           \<lfloor>real_of_int (height img) * 512 / real_of_int (width img)\<rfloor> - 1 \<le> k \<and>
           k \<le> \<lfloor>real_of_int (height img) * 512 / real_of_int (width img)\<rfloor> \<and>
           (\<not> width img dvd height img * 512 \<longrightarrow>
              k = \<lfloor>real_of_int (height img) * 512 / real_of_int (width img)\<rfloor>)"
proof -
  define H where "H = real_of_int (height img)"
  define W where "W = real_of_int (width img)"
  define q where "q = (height img * 512) div width img"
  define r where "r = (height img * 512) mod width img"
  define x where "x = H * 512 / W"
  from new_height_val [OF w h] obtain p where
    nh: "new_height img = Inr \<lfloor>p\<rfloor>" and
    lo: "x * (1 - 1 / 2 ^ 51) \<le> p" and
    hi: "p \<le> x * (1 + 1 / 2 ^ 51)"
    unfolding H_def W_def x_def by blast
  have wpos: "0 < width img" using w by simp
  have Wpos: "0 < W" using w by (simp add: W_def)
  have H0: "0 \<le> H" using h by (simp add: H_def)
  have Hb: "H < 2 ^ 42"
  proof -
    from b have "real_of_int (height img) < real_of_int (2 ^ 42)" by (simp only: of_int_less_iff)
    then show ?thesis by (simp add: H_def)
  qed
  have r0: "0 \<le> r" and rw: "r \<le> width img - 1" using wpos by (simp_all add: r_def)
  have "height img * 512 = q * width img + r" by (simp add: q_def r_def)
  then have "real_of_int (height img * 512) = real_of_int (q * width img + r)" by simp
  then have "H * 512 = real_of_int q * W + real_of_int r" by (simp add: H_def W_def)
  then have xq: "x = real_of_int q + real_of_int r / W"
    using Wpos by (simp add: x_def field_simps)
  have fl: "\<lfloor>x\<rfloor> = q"
  proof -
    have "x = real_of_int (height img * 512) / real_of_int (width img)"
      by (simp add: x_def H_def W_def)
    then show ?thesis by (simp only: floor_divide_of_int_eq q_def)
  qed
  have d: "x / 2 ^ 51 < 1 / W"
  proof -
    have "x / 2 ^ 51 = H / 2 ^ 42 / W" by (simp add: x_def)
    also have "\<dots> < 1 / W"
      using Hb Wpos by (intro divide_strict_right_mono) simp_all
    finally show ?thesis .
  qed
  have hi': "p \<le> x + x / 2 ^ 51" using hi by (simp add: distrib_left)
  have lo': "x - x / 2 ^ 51 \<le> p" using lo by (simp add: right_diff_distrib)
  have rW: "real_of_int r / W + 1 / W \<le> 1"
  proof -
    from rw have "real_of_int r \<le> real_of_int (width img - 1)" by (simp only: of_int_le_iff)
    then have "real_of_int r + 1 \<le> W" by (simp add: W_def)
    then have "(real_of_int r + 1) / W \<le> 1" using Wpos by (simp add: pos_divide_le_eq)
    then show ?thesis by (simp add: add_divide_distrib)
  qed
  have rW0: "0 \<le> real_of_int r / W" using r0 Wpos by simp
  have W1: "1 / W \<le> 1" using w by (simp add: W_def)
  have "p < real_of_int q + 1" using hi' d xq rW by linarith
  then have "p < real_of_int (q + 1)" by simp
  then have up: "\<lfloor>p\<rfloor> \<le> q" by (simp only: floor_less_iff [symmetric])
  have "real_of_int q - 1 < p" using lo' d xq rW0 W1 by linarith
  then have "real_of_int (q - 1) \<le> p" by simp
  then have dn: "q - 1 \<le> \<lfloor>p\<rfloor>" by (simp only: le_floor_iff)
  have ex: "\<lfloor>p\<rfloor> = q" if nd: "\<not> width img dvd height img * 512"
  proof -
    from nd have "r \<noteq> 0" by (simp add: r_def dvd_eq_mod_eq_0)
    with r0 have "1 \<le> r" by simp
    then have "real_of_int 1 \<le> real_of_int r" by (simp only: of_int_le_iff)
    then have "1 / W \<le> real_of_int r / W" using Wpos by (simp add: divide_right_mono)
    then have "real_of_int q \<le> p" using lo' d xq by linarith
    then have "q \<le> \<lfloor>p\<rfloor>" by (simp only: le_floor_iff)
    with up show ?thesis by simp
  qed
  show ?thesis
    using nh up dn ex unfolding fl [unfolded x_def H_def W_def] by blast
qed

text \<open>
  The rounding of \<open>512 / 561\<close> and of \<open>561 * (512 / 561)\<close>: the quotient is
  \<open>0x1.d347a4bc01d34p-1\<close>, just below the exact value, and the product
  \<open>561 * 8220474186145076 = 2 ^ 62 - 268\<close> rounds down to \<open>(2 ^ 53 - 1) * 2 ^ 9\<close>, the
  float \<open>511.99999999999994\<close>.
\<close>

lemma ratio_561: "int_truediv 512 561 = Inr (8220474186145076, - 53)"
  by code_simp

lemma product_561: "int_mul_float 561 (8220474186145076, - 53) = (9007199254740991, - 44)"
  by code_simp

section \<open>Runs of the script\<close>

text \<open>The complete runs, one for each path through the script.\<close>

lemmas script_defs =
  optimize_logo_def try_body_def optimize_logo_on_def try_body_on_def
  resize_branch_def small_branch_def writable_def
  os_path_exists_def Image_open_def Image_resize_def Image_save_def
  print_def record_call_def img_size_def Let_def

lemma optimize_logo_handlers:
  "optimize_logo e s =
     (case try_body e s of
        (None, s') \<Rightarrow> (None, s')
      | (Some (ImportError m), s') \<Rightarrow>
          (None, s'\<lparr>console := console s' @ [''Pillow not installed'']\<rparr>)
      | (Some (OtherError m), s') \<Rightarrow>
          (None, s'\<lparr>console := console s' @ [''Error: '' @ m]\<rparr>))"
  by (simp add: optimize_logo_def optimize_logo_on_def try_body_def print_def writable_def
      split: prod.splits option.splits exn.splits)

lemma writable_console:
  assumes "\<forall>l. out l = None"
  shows "optimize_logo_on out e s = optimize_logo e s"
    and "try_body_on out e s = try_body e s"
proof -
  from assms have "out = writable" by (auto simp: writable_def)
  then show "optimize_logo_on out e s = optimize_logo e s"
    and "try_body_on out e s = try_body e s"
    by (simp_all add: optimize_logo_def try_body_def)
qed

lemma run_resized:
  assumes "pillow_installed e" and "disk s path = Some (Encoded img)"
    and "open_fault e img = None" and "512 < width img"
    and "new_height img = Inr k"
    and "resize_fault e img (512, k) = None"
    and "save_fault e \<lparr>width = 512, height = k\<rparr> = None"
  shows "optimize_logo e s =
    (None, s\<lparr>disk := (disk s)(path \<mapsto> Encoded \<lparr>width = 512, height = k\<rparr>),
             console := console s @
               [''Original size: '' @ str_size (width img, height img),
                ''Resized to: '' @ str_size (512, k)],
             calls := calls s @
               [Exists path, Open path, Resize img (512, k) LANCZOS,
                Save \<lparr>width = 512, height = k\<rparr> path True 85]\<rparr>)"
  using assms by (simp add: script_defs)

lemma run_small:
  assumes "pillow_installed e" and "disk s path = Some (Encoded img)"
    and "open_fault e img = None" and "width img \<le> 512"
    and "save_fault e img = None"
  shows "optimize_logo e s =
    (None, s\<lparr>disk := (disk s)(path \<mapsto> Encoded img),
             console := console s @
               [''Original size: '' @ str_size (width img, height img),
                ''Image small enough, skipping resize.'',
                ''Optimized existing image.''],
             calls := calls s @ [Exists path, Open path, Save img path True 85]\<rparr>)"
  using assms by (simp add: script_defs)

lemma run_missing:
  assumes "pillow_installed e" and "disk s path = None"
  shows "optimize_logo e s = (None, s\<lparr>calls := calls s @ [Exists path]\<rparr>)"
  using assms by (simp add: script_defs)

lemma run_no_pillow:
  assumes "\<not> pillow_installed e"
  shows "optimize_logo e s = (None, s\<lparr>console := console s @ [''Pillow not installed'']\<rparr>)"
  using assms by (simp add: script_defs)

lemma new_height_total:
  assumes "512 < width img"
  shows "\<exists>k. new_height img = Inr k"
  using assms by (simp add: new_height_def int_truediv_def)

lemma run_open_fault:
  assumes "pillow_installed e" and "disk s path = Some f"
    and "fst (Image_open e path s) = Inl x"
  shows "try_body e s = (Some x, s\<lparr>calls := calls s @ [Exists path, Open path]\<rparr>)"
  using assms
  by (auto simp: script_defs split: file_data.splits option.splits)

text \<open>
  Where an exception of the environment leaves the body: from the resize, and from the
  save of either branch, with what was printed before it.
\<close>

lemma run_resize_fault:
  assumes "pillow_installed e" and "disk s path = Some (Encoded img)"
    and "open_fault e img = None" and "512 < width img"
    and "new_height img = Inr k"
    and "resize_fault e img (512, k) = Some x"
  shows "try_body e s =
    (Some x, s\<lparr>console := console s @ [''Original size: '' @ str_size (width img, height img)],
               calls := calls s @ [Exists path, Open path, Resize img (512, k) LANCZOS]\<rparr>)"
  using assms by (simp add: script_defs)

lemma run_save_fault_resized:
  assumes "pillow_installed e" and "disk s path = Some (Encoded img)"
    and "open_fault e img = None" and "512 < width img"
    and "new_height img = Inr k"
    and "resize_fault e img (512, k) = None"
    and "save_fault e \<lparr>width = 512, height = k\<rparr> = Some (x, rest)"
  shows "fst (try_body e s) = Some x"
    and "console (snd (try_body e s)) =
      console s @ [''Original size: '' @ str_size (width img, height img)]"
  using assms by (simp_all add: script_defs)

lemma run_save_fault_small:
  assumes "pillow_installed e" and "disk s path = Some (Encoded img)"
    and "open_fault e img = None" and "width img \<le> 512"
    and "save_fault e img = Some (x, rest)"
  shows "fst (try_body e s) = Some x"
    and "console (snd (try_body e s)) =
      console s @ [''Original size: '' @ str_size (width img, height img),
                   ''Image small enough, skipping resize.'']"
  using assms by (simp_all add: script_defs)

text \<open>
  What the handlers do with an exception that leaves the body, on a console that can be
  written.
\<close>

lemma handled:
  assumes "fst (try_body e s) = Some x"
  shows "console (snd (optimize_logo e s)) =
      console (snd (try_body e s)) @
        [case x of ImportError m \<Rightarrow> ''Pillow not installed'' | OtherError m \<Rightarrow> ''Error: '' @ m]"
    and "disk (snd (optimize_logo e s)) = disk (snd (try_body e s))"
    and "calls (snd (optimize_logo e s)) = calls (snd (try_body e s))"
  using assms
  by (cases "try_body e s"; cases x; simp add: optimize_logo_handlers)+

lemma normal_exit: "fst (optimize_logo e s) = None"
  by (cases "try_body e s")
     (auto simp: optimize_logo_handlers split: option.splits exn.splits)

text \<open>
  The only write to the file system is a save. When no save fails, a run either leaves
  the file system as it was or replaces the logo by its resized version; and what a run
  does to the file system depends on the file system alone.
\<close>

lemma try_body_disk:
  assumes "\<forall>i. save_fault e i = None"
  shows "disk (snd (try_body e s)) = disk s \<or>
    (\<exists>img k. disk s path = Some (Encoded img) \<and> 512 < width img \<and>
       new_height img = Inr k \<and>
       disk (snd (try_body e s)) = (disk s)(path \<mapsto> Encoded \<lparr>width = 512, height = k\<rparr>))"
proof (cases "disk s path")
  case None
  then show ?thesis by (simp add: script_defs)
next
  case (Some f)
  show ?thesis
  proof (cases f)
    case (Undecodable x)
    with Some show ?thesis by (simp add: script_defs)
  next
    case (Encoded img)
    show ?thesis
    proof (cases "512 < width img")
      case True
      then obtain k where k: "new_height img = Inr k" using new_height_total by blast
      with True Some Encoded assms show ?thesis
        by (auto simp: script_defs split: option.splits)
    next
      case False
      have "(disk s)(path \<mapsto> Encoded img) = disk s"
        using Some Encoded by (simp add: fun_upd_idem)
      with False Some Encoded assms show ?thesis
        by (auto simp: script_defs split: option.splits)
    qed
  qed
qed

lemma optimize_logo_disk: "disk (snd (optimize_logo e s)) = disk (snd (try_body e s))"
  by (simp add: optimize_logo_handlers split: prod.splits option.splits exn.splits)

lemma try_body_disk_only:
  assumes "disk s = disk t"
  shows "disk (snd (try_body e s)) = disk (snd (try_body e t))"
proof (cases "disk t path")
  case None
  with assms show ?thesis by (simp add: script_defs)
next
  case (Some f)
  show ?thesis
  proof (cases f)
    case (Undecodable x)
    with Some assms show ?thesis by (simp add: script_defs)
  next
    case (Encoded img)
    with Some assms show ?thesis
      by (simp add: script_defs split: option.splits sum.splits)
  qed
qed

lemma write_needs_save:
  assumes "pillow_installed e" and "disk s path = Some f"
    and "disk (snd (try_body e s)) \<noteq> disk s"
  shows "\<exists>img i. f = Encoded img \<and> open_fault e img = None \<and>
           last (calls (snd (try_body e s))) = Save i path True 85"
proof (cases f)
  case (Undecodable x)
  with assms show ?thesis by (simp add: script_defs)
next
  case (Encoded img)
  show ?thesis
  proof (cases "512 < width img")
    case True
    then obtain k where k: "new_height img = Inr k" using new_height_total by blast
    with True Encoded assms show ?thesis
      by (auto simp: script_defs split: option.splits)
  next
    case False
    with Encoded assms show ?thesis
      by (auto simp: script_defs split: option.splits)
  qed
qed

text \<open>Values at the inputs used below.\<close>

lemma new_height_561: "new_height \<lparr>width = 561, height = 561\<rparr> = Inr 511"
  by code_simp

lemma new_height_1024_768: "new_height \<lparr>width = 1024, height = 768\<rparr> = Inr 384"
  by code_simp

lemma new_height_1024_1: "new_height \<lparr>width = 1024, height = 1\<rparr> = Inr 0"
  by code_simp

lemma new_height_1000_700: "new_height \<lparr>width = 1000, height = 700\<rparr> = Inr 358"
  by code_simp

lemma str_size_1024_768: "str_size (1024, 768) = ''(1024, 768)''"
  by code_simp

lemma str_size_512_384: "str_size (512, 384) = ''(512, 384)''"
  by code_simp

lemma str_size_1024_1: "str_size (1024, 1) = ''(1024, 1)''"
  by code_simp

lemma str_size_256: "str_size (256, 256) = ''(256, 256)''"
  by code_simp

section \<open>The claims\<close>

text \<open>
  Claim C1, as the script has it. For an image wider than 512 pixels and less than
  \<open>2 ^ 42\<close> pixels high, when the library is installed and neither opening, resizing nor
  saving raises, the file at the path afterwards holds an image of width exactly 512,
  which is \<open>min (width, 512)\<close>, and of height \<open>int (height * (512 / width))\<close> computed
  in double precision. That height is \<open>floor (height * 512 / width)\<close> whenever
  \<open>height * 512\<close> is not a multiple of the width, and is that floor or one less when it is
  a multiple.
\<close>

theorem width_cap:
  assumes "pillow_installed e" and "disk s path = Some (Encoded img)"
    and "open_fault e img = None" and "512 < width img"
    and "0 \<le> height img" and "height img < 2 ^ 42"
    and "new_height img = Inr k"
    and "resize_fault e img (512, k) = None"
    and "save_fault e \<lparr>width = 512, height = k\<rparr> = None"
  shows "disk (snd (optimize_logo e s)) path = Some (Encoded \<lparr>width = 512, height = k\<rparr>)
     \<and> min (width img) 512 = 512
     \<and> \<lfloor>real_of_int (height img) * 512 / real_of_int (width img)\<rfloor> - 1 \<le> k
     \<and> k \<le> \<lfloor>real_of_int (height img) * 512 / real_of_int (width img)\<rfloor>
     \<and> (\<not> width img dvd height img * 512 \<longrightarrow>
          k = \<lfloor>real_of_int (height img) * 512 / real_of_int (width img)\<rfloor>)"
proof -
  have "disk (snd (optimize_logo e s)) path = Some (Encoded \<lparr>width = 512, height = k\<rparr>)"
    by (simp add: run_resized [OF assms(1,2,3,4,7,8,9)])
  moreover have "min (width img) 512 = 512" using assms(4) by simp
  moreover from new_height_floor [OF assms(4,5,6)] assms(7)
  have "\<lfloor>real_of_int (height img) * 512 / real_of_int (width img)\<rfloor> - 1 \<le> k
     \<and> k \<le> \<lfloor>real_of_int (height img) * 512 / real_of_int (width img)\<rfloor>
     \<and> (\<not> width img dvd height img * 512 \<longrightarrow>
          k = \<lfloor>real_of_int (height img) * 512 / real_of_int (width img)\<rfloor>)"
    by auto
  ultimately show ?thesis by blast
qed

text \<open>An instance: a 1000 x 700 image becomes 512 x 358.\<close>

theorem width_cap_witness:
  "disk (snd (optimize_logo quiet_env
      (start_state (Some (Encoded \<lparr>width = 1000, height = 700\<rparr>))))) path
     = Some (Encoded \<lparr>width = 512, height = 358\<rparr>)
   \<and> \<lfloor>real_of_int 700 * 512 / real_of_int 1000\<rfloor> = (358::int)"
  using width_cap [of quiet_env "start_state (Some (Encoded \<lparr>width = 1000, height = 700\<rparr>))"
      "\<lparr>width = 1000, height = 700\<rparr>" 358] new_height_1000_700
  by (simp add: quiet_env_def start_state_def)

text \<open>
  Claim C1 as the specification words it, with the height equal to
  \<open>floor (height * 512 / width)\<close> for every image, fails on a square 561 x 561 logo: the
  exact scaled height is 512, and the script saves 512 x 511, because \<open>512 / 561\<close> is
  rounded down and the product falls just short of 512.
\<close>

theorem width_cap_exact_floor_counterexample:
  "disk (snd (optimize_logo quiet_env
      (start_state (Some (Encoded \<lparr>width = 561, height = 561\<rparr>))))) path
     = Some (Encoded \<lparr>width = 512, height = 511\<rparr>)
   \<and> \<lfloor>real_of_int 561 * 512 / real_of_int 561\<rfloor> = (512::int)"
  by (simp add: run_resized [OF _ _ _ _ new_height_561] quiet_env_def start_state_def)

text \<open>
  Claim C2. For an image at most 512 pixels wide, when the library is installed and
  neither opening nor saving raises, the file at the path holds the same image afterwards
  (same width and height), no other path is touched, and the image was nevertheless
  saved again to the same path with \<open>optimize = True\<close> and \<open>quality = 85\<close>; the three
  status lines are printed.
\<close>

theorem small_image_resaved:
  assumes "pillow_installed e" and "disk s path = Some (Encoded img)"
    and "open_fault e img = None" and "width img \<le> 512"
    and "save_fault e img = None"
  shows "fst (optimize_logo e s) = None
     \<and> disk (snd (optimize_logo e s)) path = Some (Encoded img)
     \<and> (\<forall>p. p \<noteq> path \<longrightarrow> disk (snd (optimize_logo e s)) p = disk s p)
     \<and> calls (snd (optimize_logo e s)) =
          calls s @ [Exists path, Open path, Save img path True 85]
     \<and> console (snd (optimize_logo e s)) =
          console s @ [''Original size: '' @ str_size (width img, height img),
                       ''Image small enough, skipping resize.'',
                       ''Optimized existing image.'']"
  by (simp add: run_small [OF assms])

text \<open>An instance: the 256 x 256 scenario of the specification.\<close>

theorem small_image_resaved_witness:
  "disk (snd (optimize_logo quiet_env
      (start_state (Some (Encoded \<lparr>width = 256, height = 256\<rparr>))))) path
     = Some (Encoded \<lparr>width = 256, height = 256\<rparr>)
   \<and> calls (snd (optimize_logo quiet_env
      (start_state (Some (Encoded \<lparr>width = 256, height = 256\<rparr>)))))
     = [Exists path, Open path, Save \<lparr>width = 256, height = 256\<rparr> path True 85]
   \<and> console (snd (optimize_logo quiet_env
      (start_state (Some (Encoded \<lparr>width = 256, height = 256\<rparr>)))))
     = [''Original size: (256, 256)'', ''Image small enough, skipping resize.'',
        ''Optimized existing image.'']"
  using small_image_resaved [of quiet_env
      "start_state (Some (Encoded \<lparr>width = 256, height = 256\<rparr>))"
      "\<lparr>width = 256, height = 256\<rparr>"] str_size_256
  by (simp add: quiet_env_def start_state_def)

text \<open>
  Claim C3, as the script has it. When the import has succeeded and the path does not
  exist, the run ends normally, changes nothing in the file system and prints nothing:
  the only call made is the existence test.
\<close>

theorem missing_file_no_op:
  assumes "pillow_installed e" and "disk s path = None"
  shows "fst (optimize_logo e s) = None
     \<and> disk (snd (optimize_logo e s)) = disk s
     \<and> console (snd (optimize_logo e s)) = console s
     \<and> calls (snd (optimize_logo e s)) = calls s @ [Exists path]"
  by (simp add: run_missing [OF assms])

text \<open>An instance: an empty file system.\<close>

theorem missing_file_no_op_witness:
  "disk (snd (optimize_logo quiet_env (start_state None))) = disk (start_state None)
   \<and> console (snd (optimize_logo quiet_env (start_state None))) = []"
  using missing_file_no_op [of quiet_env "start_state None"]
  by (simp add: quiet_env_def start_state_def)

text \<open>
  Claim C3 as the specification words it, for any path that does not exist, fails when
  the import fails: the library is looked for before the file, and its absence is
  reported whether the file exists or not.
\<close>

theorem missing_file_no_op_counterexample:
  "disk (start_state None) path = None
   \<and> console (snd (optimize_logo (quiet_env\<lparr>pillow_installed := False\<rparr>) (start_state None)))
     = [''Pillow not installed'']"
  by (simp add: run_no_pillow quiet_env_def start_state_def)

text \<open>
  Claim C4, as the script has it. On a console that can be written, every run ends
  normally, and an exception raised by the import, by the open (a file that does not
  decode, a refused access), by the resize or by the save of either branch is caught and
  reported by exactly one line after what was printed before it: \<open>Error: m\<close>, with \<open>m\<close>
  its description, when it is not an \<open>ImportError\<close>, and \<open>Pillow not installed\<close> when it
  is one.
\<close>

theorem fault_absorbed:
  assumes "\<forall>l. out l = None"
  shows "fst (optimize_logo_on out e s) = None
   \<and> (\<not> pillow_installed e \<longrightarrow>
        console (snd (optimize_logo_on out e s)) = console s @ [''Pillow not installed''])
   \<and> (pillow_installed e \<and> disk s path = Some f \<and> fst (Image_open e path s) = Inl x \<longrightarrow>
        console (snd (optimize_logo_on out e s)) =
          console s @
            [case x of ImportError m \<Rightarrow> ''Pillow not installed''
             | OtherError m \<Rightarrow> ''Error: '' @ m])
   \<and> (pillow_installed e \<and> disk s path = Some (Encoded img) \<and> open_fault e img = None \<and>
      512 < width img \<and> new_height img = Inr k \<and>
      resize_fault e img (512, k) = Some x \<longrightarrow>
        console (snd (optimize_logo_on out e s)) =
          console s @
            [''Original size: '' @ str_size (width img, height img),
             case x of ImportError m \<Rightarrow> ''Pillow not installed''
             | OtherError m \<Rightarrow> ''Error: '' @ m])
   \<and> (pillow_installed e \<and> disk s path = Some (Encoded img) \<and> open_fault e img = None \<and>
      512 < width img \<and> new_height img = Inr k \<and>
      resize_fault e img (512, k) = None \<and>
      save_fault e \<lparr>width = 512, height = k\<rparr> = Some (x, rest) \<longrightarrow>
        console (snd (optimize_logo_on out e s)) =
          console s @
            [''Original size: '' @ str_size (width img, height img),
             case x of ImportError m \<Rightarrow> ''Pillow not installed''
             | OtherError m \<Rightarrow> ''Error: '' @ m])
   \<and> (pillow_installed e \<and> disk s path = Some (Encoded img) \<and> open_fault e img = None \<and>
      width img \<le> 512 \<and> save_fault e img = Some (x, rest) \<longrightarrow>
        console (snd (optimize_logo_on out e s)) =
          console s @
            [''Original size: '' @ str_size (width img, height img),
             ''Image small enough, skipping resize.'',
             case x of ImportError m \<Rightarrow> ''Pillow not installed''
             | OtherError m \<Rightarrow> ''Error: '' @ m])"
proof -
  note w = writable_console(1) [OF assms]
  have A: "fst (optimize_logo e s) = None" by (rule normal_exit)
  have B: "console (snd (optimize_logo e s)) = console s @ [''Pillow not installed'']"
    if "\<not> pillow_installed e"
    using that by (simp add: run_no_pillow)
  have C: "console (snd (optimize_logo e s)) =
      console s @ [case x of ImportError m \<Rightarrow> ''Pillow not installed''
                   | OtherError m \<Rightarrow> ''Error: '' @ m]"
    if "pillow_installed e" "disk s path = Some f" "fst (Image_open e path s) = Inl x"
    using handled(1) [of e s x] run_open_fault [OF that] by simp
  have D: "console (snd (optimize_logo e s)) =
      console s @ [''Original size: '' @ str_size (width img, height img),
                   case x of ImportError m \<Rightarrow> ''Pillow not installed''
                   | OtherError m \<Rightarrow> ''Error: '' @ m]"
    if "pillow_installed e" "disk s path = Some (Encoded img)" "open_fault e img = None"
      "512 < width img" "new_height img = Inr k" "resize_fault e img (512, k) = Some x"
    using handled(1) [of e s x] run_resize_fault [OF that] by simp
  have E: "console (snd (optimize_logo e s)) =
      console s @ [''Original size: '' @ str_size (width img, height img),
                   case x of ImportError m \<Rightarrow> ''Pillow not installed''
                   | OtherError m \<Rightarrow> ''Error: '' @ m]"
    if "pillow_installed e" "disk s path = Some (Encoded img)" "open_fault e img = None"
      "512 < width img" "new_height img = Inr k" "resize_fault e img (512, k) = None"
      "save_fault e \<lparr>width = 512, height = k\<rparr> = Some (x, rest)"
    using handled(1) [of e s x] run_save_fault_resized [OF that] by simp
  have F: "console (snd (optimize_logo e s)) =
      console s @ [''Original size: '' @ str_size (width img, height img),
                   ''Image small enough, skipping resize.'',
                   case x of ImportError m \<Rightarrow> ''Pillow not installed''
                   | OtherError m \<Rightarrow> ''Error: '' @ m]"
    if "pillow_installed e" "disk s path = Some (Encoded img)" "open_fault e img = None"
      "width img \<le> 512" "save_fault e img = Some (x, rest)"
    using handled(1) [of e s x] run_save_fault_small [OF that] by simp
  show ?thesis
    unfolding w using A B C D E F by blast
qed

text \<open>
  Instances: a failed import, a file that is not an image, a size the library rejects,
  and a full disk in either branch.
\<close>

theorem fault_absorbed_witness:
  "fst (optimize_logo_on writable quiet_env
      (start_state (Some (Undecodable (OtherError ''cannot identify image file''))))) = None
   \<and> console (snd (optimize_logo_on writable (quiet_env\<lparr>pillow_installed := False\<rparr>)
        (start_state None))) = [''Pillow not installed'']
   \<and> console (snd (optimize_logo_on writable quiet_env
        (start_state (Some (Undecodable (OtherError ''cannot identify image file''))))))
       = [''Error: cannot identify image file'']
   \<and> console (snd (optimize_logo_on writable strict_env
        (start_state (Some (Encoded \<lparr>width = 1024, height = 1\<rparr>)))))
       = [''Original size: (1024, 1)'', ''Error: height and width must be > 0'']
   \<and> console (snd (optimize_logo_on writable full_disk_env
        (start_state (Some (Encoded \<lparr>width = 1024, height = 768\<rparr>)))))
       = [''Original size: (1024, 768)'', ''Error: No space left on device'']
   \<and> console (snd (optimize_logo_on writable full_disk_env
        (start_state (Some (Encoded \<lparr>width = 256, height = 256\<rparr>)))))
       = [''Original size: (256, 256)'', ''Image small enough, skipping resize.'',
          ''Error: No space left on device'']"
proof -
  have w: "\<forall>l. writable l = None" by (simp add: writable_def)
  define bad where "bad = Undecodable (OtherError ''cannot identify image file'')"
  from fault_absorbed [OF w, of quiet_env "start_state (Some bad)"]
  have 1: "fst (optimize_logo_on writable quiet_env (start_state (Some bad))) = None"
    by blast
  from fault_absorbed [OF w, of "quiet_env\<lparr>pillow_installed := False\<rparr>" "start_state None"]
  have 2: "console (snd (optimize_logo_on writable (quiet_env\<lparr>pillow_installed := False\<rparr>)
        (start_state None))) = [''Pillow not installed'']"
    by (simp add: quiet_env_def start_state_def)
  from fault_absorbed [OF w, of quiet_env "start_state (Some bad)" bad
      "OtherError ''cannot identify image file''"]
  have 3: "console (snd (optimize_logo_on writable quiet_env (start_state (Some bad))))
       = [''Error: cannot identify image file'']"
    by (simp add: quiet_env_def start_state_def bad_def Image_open_def record_call_def)
  from fault_absorbed [OF w, of strict_env
      "start_state (Some (Encoded \<lparr>width = 1024, height = 1\<rparr>))" _
      "OtherError ''height and width must be > 0''" "\<lparr>width = 1024, height = 1\<rparr>" 0]
    new_height_1024_1 str_size_1024_1
  have 4: "console (snd (optimize_logo_on writable strict_env
        (start_state (Some (Encoded \<lparr>width = 1024, height = 1\<rparr>)))))
       = [''Original size: (1024, 1)'', ''Error: height and width must be > 0'']"
    by (simp add: strict_env_def quiet_env_def start_state_def)
  from fault_absorbed [OF w, of full_disk_env
      "start_state (Some (Encoded \<lparr>width = 1024, height = 768\<rparr>))" _
      "OtherError ''No space left on device''" "\<lparr>width = 1024, height = 768\<rparr>" 384 None]
    new_height_1024_768 str_size_1024_768
  have 5: "console (snd (optimize_logo_on writable full_disk_env
        (start_state (Some (Encoded \<lparr>width = 1024, height = 768\<rparr>)))))
       = [''Original size: (1024, 768)'', ''Error: No space left on device'']"
    by (simp add: full_disk_env_def quiet_env_def start_state_def)
  from fault_absorbed [OF w, of full_disk_env
      "start_state (Some (Encoded \<lparr>width = 256, height = 256\<rparr>))" _
      "OtherError ''No space left on device''" "\<lparr>width = 256, height = 256\<rparr>" _ None]
    str_size_256
  have 6: "console (snd (optimize_logo_on writable full_disk_env
        (start_state (Some (Encoded \<lparr>width = 256, height = 256\<rparr>)))))
       = [''Original size: (256, 256)'', ''Image small enough, skipping resize.'',
          ''Error: No space left on device'']"
    by (simp add: full_disk_env_def quiet_env_def start_state_def)
  from 1 2 3 4 5 6 show ?thesis by (simp add: bad_def)
qed

text \<open>
  Claim C4 as the specification words it fails twice. No exception is to leave the
  script: with a closed standard output, the handler's own \<open>print\<close> raises while it
  reports a file that is not an image, and nothing catches that. And every exception is
  to be reported as \<open>Error: ...\<close>: a failed import is reported by another line.
\<close>

theorem fault_absorbed_counterexample:
  "fst (optimize_logo_on closed_stdout quiet_env
      (start_state (Some (Undecodable (OtherError ''cannot identify image file'')))))
     = Some (OtherError ''I/O operation on closed file'')
   \<and> console (snd (optimize_logo_on writable (quiet_env\<lparr>pillow_installed := False\<rparr>)
      (start_state (Some (Encoded \<lparr>width = 1024, height = 768\<rparr>)))))
     = [''Pillow not installed'']"
  by (simp add: optimize_logo_on_def try_body_on_def os_path_exists_def Image_open_def
      record_call_def print_def closed_stdout_def writable_def quiet_env_def start_state_def)

text \<open>
  Claim C5. When the import fails, the run ends normally after printing the one line
  \<open>Pillow not installed\<close>; the file system is unchanged and no call to the operating
  system or to the library has been made, not even the existence test.
\<close>

theorem pillow_missing:
  assumes "\<not> pillow_installed e"
  shows "fst (optimize_logo e s) = None
     \<and> console (snd (optimize_logo e s)) = console s @ [''Pillow not installed'']
     \<and> disk (snd (optimize_logo e s)) = disk s
     \<and> calls (snd (optimize_logo e s)) = calls s"
  by (simp add: run_no_pillow [OF assms])

text \<open>An instance: a large logo is present, and is left alone.\<close>

theorem pillow_missing_witness:
  "console (snd (optimize_logo (quiet_env\<lparr>pillow_installed := False\<rparr>)
      (start_state (Some (Encoded \<lparr>width = 1024, height = 768\<rparr>)))))
     = [''Pillow not installed'']
   \<and> calls (snd (optimize_logo (quiet_env\<lparr>pillow_installed := False\<rparr>)
      (start_state (Some (Encoded \<lparr>width = 1024, height = 768\<rparr>))))) = []
   \<and> disk (snd (optimize_logo (quiet_env\<lparr>pillow_installed := False\<rparr>)
      (start_state (Some (Encoded \<lparr>width = 1024, height = 768\<rparr>))))) path
     = Some (Encoded \<lparr>width = 1024, height = 768\<rparr>)"
  using pillow_missing [of "quiet_env\<lparr>pillow_installed := False\<rparr>"
      "start_state (Some (Encoded \<lparr>width = 1024, height = 768\<rparr>))"]
  by (simp add: quiet_env_def start_state_def)

text \<open>
  Claim C6. In an environment where saving does not fail, a second run leaves the file
  system exactly as the first run left it, so the final dimensions are those after one
  run. The reason is the one the claim gives: after a run that completed, the image at
  the path is at most 512 pixels wide.
\<close>

theorem twice_same_dimensions:
  assumes "\<forall>i. save_fault e i = None"
  shows "disk (snd (optimize_logo e (snd (optimize_logo e s)))) = disk (snd (optimize_logo e s))
     \<and> (\<forall>img1. fst (try_body e s) = None \<and>
            disk (snd (optimize_logo e s)) path = Some (Encoded img1) \<longrightarrow>
          width img1 \<le> 512)"
proof -
  define s1 where "s1 = snd (optimize_logo e s)"
  have d1: "disk s1 = disk (snd (try_body e s))" by (simp add: s1_def optimize_logo_disk)
  have goal: "disk (snd (try_body e s1)) = disk s1"
  proof -
    from try_body_disk [OF assms, of s1] consider
      "disk (snd (try_body e s1)) = disk s1"
      | img where "disk s1 path = Some (Encoded img)" "512 < width img"
    by blast
    then show ?thesis
    proof cases
      case 1
      then show ?thesis .
    next
      case 2
      from try_body_disk [OF assms, of s] show ?thesis
      proof
        assume same: "disk (snd (try_body e s)) = disk s"
        then have "disk s1 = disk s" using d1 by simp
        then have "disk (snd (try_body e s1)) = disk (snd (try_body e s))"
          by (rule try_body_disk_only)
        with same d1 show ?thesis by simp
      next
        assume "\<exists>img k. disk s path = Some (Encoded img) \<and> 512 < width img \<and>
          new_height img = Inr k \<and>
          disk (snd (try_body e s)) = (disk s)(path \<mapsto> Encoded \<lparr>width = 512, height = k\<rparr>)"
        then obtain k where "disk s1 path = Some (Encoded \<lparr>width = 512, height = k\<rparr>)"
          using d1 by auto
        with 2 have "width \<lparr>width = 512, height = k\<rparr> > (512::int)" by auto
        then show ?thesis by simp
      qed
    qed
  qed
  then have A: "disk (snd (optimize_logo e (snd (optimize_logo e s)))) = disk (snd (optimize_logo e s))"
    by (simp add: optimize_logo_disk s1_def [symmetric])
  have B: "width img1 \<le> 512"
    if ok: "fst (try_body e s) = None" and f: "disk s1 path = Some (Encoded img1)" for img1
  proof -
    from try_body_disk [OF assms, of s] show ?thesis
    proof
      assume same: "disk (snd (try_body e s)) = disk s"
      with d1 f have ds: "disk s path = Some (Encoded img1)" by simp
      show ?thesis
      proof (rule ccontr)
        assume "\<not> width img1 \<le> 512"
        then have w: "512 < width img1" by simp
        then obtain k where k: "new_height img1 = Inr k" using new_height_total by blast
        from ok have p: "pillow_installed e"
          by (auto simp: try_body_def try_body_on_def split: if_splits)
        from ok p ds have o: "open_fault e img1 = None"
          by (auto simp: script_defs split: option.splits)
        from ok p ds o w k have r: "resize_fault e img1 (512, k) = None"
          by (auto simp: script_defs split: option.splits)
        from assms have sv: "save_fault e \<lparr>width = 512, height = k\<rparr> = None" by simp
        from run_resized [OF p ds o w k r sv]
        have "disk s1 path = Some (Encoded \<lparr>width = 512, height = k\<rparr>)"
          by (simp add: s1_def)
        with f have "img1 = \<lparr>width = 512, height = k\<rparr>" by simp
        with w show False by simp
      qed
    next
      assume "\<exists>img k. disk s path = Some (Encoded img) \<and> 512 < width img \<and>
          new_height img = Inr k \<and>
          disk (snd (try_body e s)) = (disk s)(path \<mapsto> Encoded \<lparr>width = 512, height = k\<rparr>)"
      then obtain k where "disk s1 path = Some (Encoded \<lparr>width = 512, height = k\<rparr>)"
        using d1 by auto
      with f show ?thesis by auto
    qed
  qed
  from A B show ?thesis unfolding s1_def by blast
qed

text \<open>An instance: 1024 x 768 is 512 x 384 after one run and after two.\<close>

theorem twice_same_dimensions_witness:
  "disk (snd (optimize_logo quiet_env (snd (optimize_logo quiet_env
      (start_state (Some (Encoded \<lparr>width = 1024, height = 768\<rparr>))))))) path
     = Some (Encoded \<lparr>width = 512, height = 384\<rparr>)
   \<and> width \<lparr>width = 512, height = 384\<rparr> \<le> (512::int)"
proof -
  define s0 where "s0 = start_state (Some (Encoded \<lparr>width = 1024, height = 768\<rparr>))"
  have sv: "\<forall>i. save_fault quiet_env i = None" by (simp add: quiet_env_def)
  have one: "disk (snd (optimize_logo quiet_env s0)) path
      = Some (Encoded \<lparr>width = 512, height = 384\<rparr>)"
    by (simp add: run_resized [OF _ _ _ _ new_height_1024_768] quiet_env_def s0_def
        start_state_def)
  have ok: "fst (try_body quiet_env s0) = None"
    using new_height_1024_768
    by (simp add: script_defs quiet_env_def s0_def start_state_def)
  from twice_same_dimensions [OF sv, of s0] one ok
  show ?thesis by (simp add: s0_def)
qed

text \<open>
  Claim C7. For a 1024 x 768 image, with nothing printed before and no call raising,
  the file afterwards holds a 512 x 384 image and the console holds exactly the two lines
  \<open>Original size: (1024, 768)\<close> and \<open>Resized to: (512, 384)\<close>, in this order.
\<close>

theorem scenario_1024_768:
  assumes "pillow_installed e"
    and "disk s path = Some (Encoded \<lparr>width = 1024, height = 768\<rparr>)"
    and "open_fault e \<lparr>width = 1024, height = 768\<rparr> = None"
    and "resize_fault e \<lparr>width = 1024, height = 768\<rparr> (512, 384) = None"
    and "save_fault e \<lparr>width = 512, height = 384\<rparr> = None"
    and "console s = []"
  shows "disk (snd (optimize_logo e s)) path = Some (Encoded \<lparr>width = 512, height = 384\<rparr>)
     \<and> console (snd (optimize_logo e s)) =
          [''Original size: (1024, 768)'', ''Resized to: (512, 384)'']"
  using assms(6)
  by (simp add: run_resized [OF assms(1,2,3) _ new_height_1024_768 assms(4,5)]
      str_size_1024_768 str_size_512_384)

text \<open>The instance in the nominal environment.\<close>

theorem scenario_1024_768_witness:
  "disk (snd (optimize_logo quiet_env
      (start_state (Some (Encoded \<lparr>width = 1024, height = 768\<rparr>))))) path
     = Some (Encoded \<lparr>width = 512, height = 384\<rparr>)
   \<and> console (snd (optimize_logo quiet_env
      (start_state (Some (Encoded \<lparr>width = 1024, height = 768\<rparr>)))))
     = [''Original size: (1024, 768)'', ''Resized to: (512, 384)'']"
  using scenario_1024_768 [of quiet_env
      "start_state (Some (Encoded \<lparr>width = 1024, height = 768\<rparr>))"]
  by (simp add: quiet_env_def start_state_def)

text \<open>
  Claim C8. When the file exists and an exception is raised before a save is reached,
  either by the open (the content does not decode, or the library raises for another
  reason) or by the resize (where the library decodes the pixel data), the file system
  after the run is the one before, and the calls made stop at the call that raised: no
  save. And a run changes the file system only by a save: when the file system after the
  run differs, the image was opened with success and the last call made is a save to the
  path.
\<close>

theorem fault_before_save_keeps_file:
  assumes "pillow_installed e" and "disk s path = Some f"
  shows "(fst (Image_open e path s) = Inl x \<longrightarrow>
            disk (snd (optimize_logo e s)) = disk s \<and>
            calls (snd (optimize_logo e s)) = calls s @ [Exists path, Open path])
     \<and> (f = Encoded img \<and> open_fault e img = None \<and> 512 < width img \<and>
        new_height img = Inr k \<and> resize_fault e img (512, k) = Some x \<longrightarrow>
            disk (snd (optimize_logo e s)) = disk s \<and>
            calls (snd (optimize_logo e s)) =
              calls s @ [Exists path, Open path, Resize img (512, k) LANCZOS])
     \<and> (disk (snd (optimize_logo e s)) \<noteq> disk s \<longrightarrow>
          (\<exists>img' i. f = Encoded img' \<and> open_fault e img' = None \<and>
             last (calls (snd (optimize_logo e s))) = Save i path True 85))"
proof -
  have A: "disk (snd (optimize_logo e s)) = disk s \<and>
      calls (snd (optimize_logo e s)) = calls s @ [Exists path, Open path]"
    if "fst (Image_open e path s) = Inl x"
    using handled(2,3) [of e s x] run_open_fault [OF assms that] by simp
  have B: "disk (snd (optimize_logo e s)) = disk s \<and>
      calls (snd (optimize_logo e s)) =
        calls s @ [Exists path, Open path, Resize img (512, k) LANCZOS]"
    if "f = Encoded img" "open_fault e img = None" "512 < width img"
      "new_height img = Inr k" "resize_fault e img (512, k) = Some x"
    using handled(2,3) [of e s x]
      run_resize_fault [OF assms(1) assms(2) [unfolded that(1)] that(2,3,4,5)]
    by simp
  have cs: "calls (snd (optimize_logo e s)) = calls (snd (try_body e s))"
    by (cases "try_body e s")
       (auto simp: optimize_logo_handlers split: option.splits exn.splits)
  have C: "\<exists>img' i. f = Encoded img' \<and> open_fault e img' = None \<and>
      last (calls (snd (optimize_logo e s))) = Save i path True 85"
    if "disk (snd (optimize_logo e s)) \<noteq> disk s"
    using write_needs_save [OF assms] that by (simp add: optimize_logo_disk cs)
  show ?thesis
  proof (rule conjI)
    show "fst (Image_open e path s) = Inl x \<longrightarrow>
            disk (snd (optimize_logo e s)) = disk s \<and>
            calls (snd (optimize_logo e s)) = calls s @ [Exists path, Open path]"
      using A by (rule impI)
  next
    show "(f = Encoded img \<and> open_fault e img = None \<and> 512 < width img \<and>
        new_height img = Inr k \<and> resize_fault e img (512, k) = Some x \<longrightarrow>
            disk (snd (optimize_logo e s)) = disk s \<and>
            calls (snd (optimize_logo e s)) =
              calls s @ [Exists path, Open path, Resize img (512, k) LANCZOS])
     \<and> (disk (snd (optimize_logo e s)) \<noteq> disk s \<longrightarrow>
          (\<exists>img' i. f = Encoded img' \<and> open_fault e img' = None \<and>
             last (calls (snd (optimize_logo e s))) = Save i path True 85))"
    proof (rule conjI)
      show "f = Encoded img \<and> open_fault e img = None \<and> 512 < width img \<and>
        new_height img = Inr k \<and> resize_fault e img (512, k) = Some x \<longrightarrow>
            disk (snd (optimize_logo e s)) = disk s \<and>
            calls (snd (optimize_logo e s)) =
              calls s @ [Exists path, Open path, Resize img (512, k) LANCZOS]"
      proof (rule impI)
        assume h: "f = Encoded img \<and> open_fault e img = None \<and> 512 < width img \<and>
          new_height img = Inr k \<and> resize_fault e img (512, k) = Some x"
        show "disk (snd (optimize_logo e s)) = disk s \<and>
            calls (snd (optimize_logo e s)) =
              calls s @ [Exists path, Open path, Resize img (512, k) LANCZOS]"
          by (rule B) (simp_all add: h)
      qed
    next
      show "disk (snd (optimize_logo e s)) \<noteq> disk s \<longrightarrow>
          (\<exists>img' i. f = Encoded img' \<and> open_fault e img' = None \<and>
             last (calls (snd (optimize_logo e s))) = Save i path True 85)"
        using C by (rule impI)
    qed
  qed
qed

text \<open>
  Instances: an open that is refused, a truncated file whose decoding fails in the
  resize, and a run that does write.
\<close>

theorem fault_before_save_keeps_file_witness:
  "disk (snd (optimize_logo (quiet_env\<lparr>open_fault := (\<lambda>_. Some (OtherError ''Permission denied''))\<rparr>)
      (start_state (Some (Encoded \<lparr>width = 1024, height = 768\<rparr>))))) path
     = Some (Encoded \<lparr>width = 1024, height = 768\<rparr>)
   \<and> calls (snd (optimize_logo (quiet_env\<lparr>open_fault := (\<lambda>_. Some (OtherError ''Permission denied''))\<rparr>)
      (start_state (Some (Encoded \<lparr>width = 1024, height = 768\<rparr>)))))
     = [Exists path, Open path]
   \<and> disk (snd (optimize_logo truncated_env
      (start_state (Some (Encoded \<lparr>width = 1024, height = 768\<rparr>))))) path
     = Some (Encoded \<lparr>width = 1024, height = 768\<rparr>)
   \<and> calls (snd (optimize_logo truncated_env
      (start_state (Some (Encoded \<lparr>width = 1024, height = 768\<rparr>)))))
     = [Exists path, Open path, Resize \<lparr>width = 1024, height = 768\<rparr> (512, 384) LANCZOS]
   \<and> (\<exists>i. last (calls (snd (optimize_logo quiet_env
        (start_state (Some (Encoded \<lparr>width = 1024, height = 768\<rparr>))))))
       = Save i path True 85)"
proof -
  define s0 where "s0 = start_state (Some (Encoded \<lparr>width = 1024, height = 768\<rparr>))"
  define refused where
    "refused = quiet_env\<lparr>open_fault := (\<lambda>_. Some (OtherError ''Permission denied''))\<rparr>"
  from fault_before_save_keeps_file [of refused s0 "Encoded \<lparr>width = 1024, height = 768\<rparr>"
      "OtherError ''Permission denied''"]
  have 1: "disk (snd (optimize_logo refused s0)) path
        = Some (Encoded \<lparr>width = 1024, height = 768\<rparr>)
      \<and> calls (snd (optimize_logo refused s0)) = [Exists path, Open path]"
    by (simp add: refused_def quiet_env_def s0_def start_state_def Image_open_def
        record_call_def)
  from fault_before_save_keeps_file [of truncated_env s0
      "Encoded \<lparr>width = 1024, height = 768\<rparr>"
      "OtherError ''image file is truncated''" "\<lparr>width = 1024, height = 768\<rparr>" 384]
    new_height_1024_768
  have 2: "disk (snd (optimize_logo truncated_env s0)) path
        = Some (Encoded \<lparr>width = 1024, height = 768\<rparr>)
      \<and> calls (snd (optimize_logo truncated_env s0))
        = [Exists path, Open path, Resize \<lparr>width = 1024, height = 768\<rparr> (512, 384) LANCZOS]"
    by (simp add: truncated_env_def quiet_env_def s0_def start_state_def)
  have a: "disk (snd (optimize_logo quiet_env s0)) path
      = Some (Encoded \<lparr>width = 512, height = 384\<rparr>)"
    by (simp add: run_resized [OF _ _ _ _ new_height_1024_768] quiet_env_def s0_def
        start_state_def)
  have b: "disk s0 path = Some (Encoded \<lparr>width = 1024, height = 768\<rparr>)"
    by (simp add: s0_def start_state_def)
  have ne: "disk (snd (optimize_logo quiet_env s0)) \<noteq> disk s0"
  proof
    assume "disk (snd (optimize_logo quiet_env s0)) = disk s0"
    then have "disk (snd (optimize_logo quiet_env s0)) path = disk s0 path" by simp
    with a b show False by simp
  qed
  have p: "pillow_installed quiet_env" by (simp add: quiet_env_def)
  from fault_before_save_keeps_file [OF p b] ne
  have 3: "\<exists>i. last (calls (snd (optimize_logo quiet_env s0))) = Save i path True 85"
    by blast
  from 1 2 3 show ?thesis by (simp add: s0_def refused_def)
qed

text \<open>
  Claim C9. The image 1024 x 1 is wider than 512 and has a positive height, and its new
  height is \<open>int (1 * 0.5) = 0\<close>: whenever it is opened, the script asks the library to
  resize it to \<open>(512, 0)\<close>, a height that is not positive.
\<close>

theorem zero_height_requested:
  assumes "pillow_installed e"
    and "disk s path = Some (Encoded \<lparr>width = 1024, height = 1\<rparr>)"
    and "open_fault e \<lparr>width = 1024, height = 1\<rparr> = None"
  shows "(512::int) < width \<lparr>width = 1024, height = 1\<rparr>
     \<and> (0::int) < height \<lparr>width = 1024, height = 1\<rparr>
     \<and> new_height \<lparr>width = 1024, height = 1\<rparr> = Inr 0
     \<and> Resize \<lparr>width = 1024, height = 1\<rparr> (512, 0) LANCZOS
          \<in> set (calls (snd (optimize_logo e s)))"
  using assms new_height_1024_1
  by (auto simp: script_defs split: option.splits exn.splits)

text \<open>
  An instance: with a library that rejects the empty size, the run stops at the resize
  and reports the rejection.
\<close>

theorem zero_height_requested_witness:
  "calls (snd (optimize_logo strict_env
      (start_state (Some (Encoded \<lparr>width = 1024, height = 1\<rparr>)))))
     = [Exists path, Open path, Resize \<lparr>width = 1024, height = 1\<rparr> (512, 0) LANCZOS]
   \<and> Resize \<lparr>width = 1024, height = 1\<rparr> (512, 0) LANCZOS
        \<in> set (calls (snd (optimize_logo strict_env
             (start_state (Some (Encoded \<lparr>width = 1024, height = 1\<rparr>))))))"
proof -
  define s0 where "s0 = start_state (Some (Encoded \<lparr>width = 1024, height = 1\<rparr>))"
  have "try_body strict_env s0 =
      (Some (OtherError ''height and width must be > 0''),
       s0\<lparr>console := console s0 @
              [''Original size: '' @ str_size (width \<lparr>width = 1024, height = 1\<rparr>,
                                             height \<lparr>width = 1024, height = 1\<rparr>)],
          calls := calls s0 @
              [Exists path, Open path,
               Resize \<lparr>width = 1024, height = 1\<rparr> (512, 0) LANCZOS]\<rparr>)"
    by (rule run_resize_fault [OF _ _ _ _ new_height_1024_1])
       (simp_all add: strict_env_def quiet_env_def s0_def start_state_def)
  then have "calls (snd (optimize_logo strict_env s0)) =
      [Exists path, Open path, Resize \<lparr>width = 1024, height = 1\<rparr> (512, 0) LANCZOS]"
    by (simp add: optimize_logo_handlers s0_def start_state_def)
  moreover from zero_height_requested [of strict_env s0]
  have "Resize \<lparr>width = 1024, height = 1\<rparr> (512, 0) LANCZOS
      \<in> set (calls (snd (optimize_logo strict_env s0)))"
    by (simp add: strict_env_def quiet_env_def s0_def start_state_def)
  ultimately show ?thesis by (simp add: s0_def)
qed

text \<open>
  Claim C10. In an environment where saving does not fail, whatever else happens, the
  image at the path after a run is no wider and no higher than the image before it
  (heights are not negative).
\<close>

theorem never_upscales:
  assumes "\<forall>i. save_fault e i = None" and "disk s path = Some (Encoded img)"
    and "0 \<le> height img"
  shows "\<exists>img'. disk (snd (optimize_logo e s)) path = Some (Encoded img') \<and>
           width img' \<le> width img \<and> height img' \<le> height img"
proof -
  from try_body_disk [OF assms(1), of s] show ?thesis
  proof
    assume "disk (snd (try_body e s)) = disk s"
    with assms(2) show ?thesis by (simp add: optimize_logo_disk)
  next
    assume "\<exists>img k. disk s path = Some (Encoded img) \<and> 512 < width img \<and>
          new_height img = Inr k \<and>
          disk (snd (try_body e s)) = (disk s)(path \<mapsto> Encoded \<lparr>width = 512, height = k\<rparr>)"
    with assms(2) obtain k where w: "512 < width img" and k: "new_height img = Inr k"
      and d: "disk (snd (try_body e s)) = (disk s)(path \<mapsto> Encoded \<lparr>width = 512, height = k\<rparr>)"
      by auto
    from new_height_le_height [OF w assms(3)] k have "k \<le> height img" by auto
    with w d show ?thesis by (simp add: optimize_logo_disk)
  qed
qed

text \<open>An instance: the 561 x 561 logo.\<close>

theorem never_upscales_witness:
  "\<exists>img'. disk (snd (optimize_logo quiet_env
        (start_state (Some (Encoded \<lparr>width = 561, height = 561\<rparr>))))) path
      = Some (Encoded img') \<and> width img' \<le> 561 \<and> height img' \<le> 561"
  using never_upscales [of quiet_env
      "start_state (Some (Encoded \<lparr>width = 561, height = 561\<rparr>))"
      "\<lparr>width = 561, height = 561\<rparr>"]
  by (simp add: quiet_env_def start_state_def)

end
